theory Spec2Isabelle
  imports Complex_Main
begin

section \<open>Flight market simulation and pain-score selection (solution.py)\<close>

text \<open>
  A shallow embedding of \<^verbatim>\<open>solution.py\<close>: the class \<^verbatim>\<open>FlightOption\<close> with its
  constructor and \<^verbatim>\<open>calculate_score\<close>, the generator \<^verbatim>\<open>generate_flight_data\<close> and the
  selector \<^verbatim>\<open>find_best_flight\<close>. Python integers are \<open>int\<close>, Python strings are
  \<open>string\<close>, an exception is the \<open>Inl\<close> branch of a sum.
\<close>

subsection \<open>Module constants\<close>

definition VALUE_OF_DIRECT_FLIGHT :: int where
  "VALUE_OF_DIRECT_FLIGHT = 60"

definition VALUE_OF_GOOD_TIME :: int where
  "VALUE_OF_GOOD_TIME = 40"

definition VALUE_OF_PREMIUM_AIRLINE :: int where
  "VALUE_OF_PREMIUM_AIRLINE = 50"

definition DAILY_PATIENCE_COST :: int where
  "DAILY_PATIENCE_COST = 5"

definition DAYS_OF_WEEK :: "string list" where
  "DAYS_OF_WEEK = [''Mon'', ''Tue'', ''Wed'', ''Thu'', ''Fri'', ''Sat'', ''Sun'']"

subsection \<open>Python primitives used by the module\<close>

datatype error = IndexError

text \<open>
  List subscription \<^verbatim>\<open>xs[i]\<close>: a negative index counts from the end, an index outside
  \<open>[-len, len)\<close> raises \<^verbatim>\<open>IndexError\<close>.
\<close>

definition py_getitem :: "'a list \<Rightarrow> int \<Rightarrow> error + 'a" where
  "py_getitem xs i =
     (if 0 \<le> i \<and> i < int (length xs) then Inr (xs ! nat i)
      else if - int (length xs) \<le> i \<and> i < 0 then Inr (xs ! nat (int (length xs) + i))
      else Inl IndexError)"

text \<open>\<^verbatim>\<open>range(n)\<close>: the integers \<open>0, ..., n - 1\<close>, none when \<open>n \<le> 0\<close>.\<close>

definition py_range :: "int \<Rightarrow> int list" where
  "py_range n = [0..n - 1]"

text \<open>
  The format specification \<^verbatim>\<open>02d\<close>: decimal digits, a minus sign for a negative
  number, padded with zeros after the sign to a width of two.
\<close>

fun decimal :: "nat \<Rightarrow> string" where
  "decimal n =
     (if n < 10 then [''0123456789'' ! n]
      else decimal (n div 10) @ [''0123456789'' ! (n mod 10)])"

definition format_02d :: "int \<Rightarrow> string" where
  "format_02d i =
     (if i < 0 then ''-'' @ decimal (nat (- i))
      else if i < 10 then ''0'' @ decimal (nat i)
      else decimal (nat i))"

subsection \<open>The global random source\<close>

text \<open>
  The module draws from Python's global generator and never seeds it. The generator is
  modelled by what it answers: \<open>random_at g k\<close> is the answer of call number \<open>k\<close> when
  that call is \<^verbatim>\<open>random.random()\<close>, and \<open>randint_at g k a b\<close> is its answer when that
  call is \<^verbatim>\<open>random.randint(a, b)\<close>. The state threaded through the program is the number
  of calls made so far. Floats are dyadic rationals, so a draw is a \<open>rat\<close>.
\<close>

record rng =
  random_at :: "nat \<Rightarrow> rat"
  randint_at :: "nat \<Rightarrow> int \<Rightarrow> int \<Rightarrow> int"

definition random_random :: "rng \<Rightarrow> nat \<Rightarrow> rat \<times> nat" where
  "random_random g k = (random_at g k, Suc k)"

definition random_randint :: "rng \<Rightarrow> int \<Rightarrow> int \<Rightarrow> nat \<Rightarrow> int \<times> nat" where
  "random_randint g a b k = (randint_at g k a b, Suc k)"

text \<open>
  The library's contract: \<^verbatim>\<open>random()\<close> lies in \<open>[0, 1)\<close> and \<^verbatim>\<open>randint(a, b)\<close> lies in
  \<open>[a, b]\<close>.
\<close>

definition valid_rng :: "rng \<Rightarrow> bool" where
  "valid_rng g \<longleftrightarrow>
     (\<forall>k. 0 \<le> random_at g k \<and> random_at g k < 1) \<and>
     (\<forall>k a b. a \<le> b \<longrightarrow> a \<le> randint_at g k a b \<and> randint_at g k a b \<le> b)"

subsection \<open>FlightOption\<close>

record FlightOption =
  day_index :: int
  day_name :: string
  airline :: string
  quality_bonus :: bool
  is_direct :: bool
  price :: int
  time_str :: string
  time_quality :: string

text \<open>
  \<^verbatim>\<open>FlightOption.__init__\<close>. The local \<open>price_modifier\<close> and the attribute \<open>price\<close> are
  rebound step by step as the source assigns them. The result carries the state of the
  random source after the three draws.
\<close>

definition FlightOption_init :: "rng \<Rightarrow> int \<Rightarrow> int \<Rightarrow> int \<Rightarrow> nat \<Rightarrow> error + (FlightOption \<times> nat)" where
  "FlightOption_init g day_idx base_market_price start_day_offset k =
     (let current_day_num = (day_idx + start_day_offset) mod 7 in
      case py_getitem DAYS_OF_WEEK current_day_num of
        Inl e \<Rightarrow> Inl e
      | Inr dname \<Rightarrow>
          (let (r1, k1) = random_random g k;
               (air, bonus, price_modifier) =
                  (if r1 < 0.5 then (''LuxAir'', True, 50)
                   else (''CheapJet'', False, - 30));
               (r2, k2) = random_random g k1;
               (direct, price_modifier) =
                  (if r2 < 0.40 then (False, price_modifier - 60)
                   else (True, price_modifier + 20));
               p = base_market_price + price_modifier;
               p = (if dname \<in> set [''Fri'', ''Sun''] then p + 80
                    else if dname \<in> set [''Tue'', ''Wed''] then p - 40
                    else p);
               p = (if day_idx < 3 then p + 150 else p);
               (hour, k3) = random_randint g 5 23 k2;
               tstr = format_02d hour @ '':00'';
               (tq, p) =
                  (if 10 \<le> hour \<and> hour \<le> 16 then (''Prime'', p + 30)
                   else if hour < 8 \<or> hour > 20 then (''Awkward'', p - 30)
                   else (''Standard'', p));
               p = max 100 p
           in Inr (\<lparr>day_index = day_idx, day_name = dname, airline = air,
                     quality_bonus = bonus, is_direct = direct, price = p,
                     time_str = tstr, time_quality = tq\<rparr>, k3)))"

text \<open>\<^verbatim>\<open>FlightOption.calculate_score\<close>, the local \<open>score\<close> rebound as in the source.\<close>

definition calculate_score :: "FlightOption \<Rightarrow> int" where
  "calculate_score self =
     (let score = price self;
          score = score + day_index self * DAILY_PATIENCE_COST;
          score = (if \<not> is_direct self then score + VALUE_OF_DIRECT_FLIGHT else score);
          score = (if time_quality self = ''Awkward'' then score + VALUE_OF_GOOD_TIME else score);
          score = (if quality_bonus self then score - VALUE_OF_PREMIUM_AIRLINE else score)
      in score)"

subsection \<open>generate\_flight\_data\<close>

text \<open>
  The body of the \<^verbatim>\<open>for day in range(days)\<close> loop, one equation per remaining day:
  the offer is built from the current \<open>market_price\<close>, appended, and only then the
  market price drifts and is floored at 200.
\<close>

fun generate_loop ::
  "rng \<Rightarrow> int \<Rightarrow> int list \<Rightarrow> FlightOption list \<Rightarrow> int \<Rightarrow> nat \<Rightarrow> error + (FlightOption list \<times> nat)" where
  "generate_loop g start_day_offset [] flights market_price k = Inr (flights, k)"
| "generate_loop g start_day_offset (day # days) flights market_price k =
     (case FlightOption_init g day market_price start_day_offset k of
        Inl e \<Rightarrow> Inl e
      | Inr (f, k1) \<Rightarrow>
          (let flights = flights @ [f];
               (step, k2) = random_randint g (- 60) 60 k1;
               market_price = market_price + step;
               market_price = max 200 market_price
           in generate_loop g start_day_offset days flights market_price k2))"

definition generate_flight_data :: "rng \<Rightarrow> int \<Rightarrow> nat \<Rightarrow> error + (FlightOption list \<times> nat)" where
  "generate_flight_data g days k =
     (let flights = [];
          (market_price, k1) = random_randint g 700 1100 k;
          (start_day_offset, k2) = random_randint g 0 6 k1
      in generate_loop g start_day_offset (py_range days) flights market_price k2)"

subsection \<open>find\_best\_flight\<close>

text \<open>
  \<open>lowest_score\<close> starts as \<^verbatim>\<open>float('inf')\<close> and holds an integer afterwards; Python
  compares an integer with the float infinity exactly, so every integer is below it.
\<close>

datatype bound = Infinity | Finite int

fun below :: "int \<Rightarrow> bound \<Rightarrow> bool" where
  "below s Infinity = True"
| "below s (Finite b) = (s < b)"

fun find_loop :: "FlightOption list \<Rightarrow> FlightOption option \<Rightarrow> bound \<Rightarrow> FlightOption option" where
  "find_loop [] best_flight lowest_score = best_flight"
| "find_loop (flight # flights) best_flight lowest_score =
     (let score = calculate_score flight in
      if below score lowest_score then find_loop flights (Some flight) (Finite score)
      else find_loop flights best_flight lowest_score)"

definition find_best_flight :: "FlightOption list \<Rightarrow> FlightOption option" where
  "find_best_flight flights = find_loop flights None Infinity"

section \<open>The generator as the specification words it\<close>

text \<open>
  The price modifiers of steps 2 to 7 of the specification's generator contract, each as
  a function of the draw or attribute that decides it, and the quality thresholds of
  its data model. They are compared with the constructor below.
\<close>

definition spec_tier_modifier :: "rat \<Rightarrow> int" where
  "spec_tier_modifier r = (if r < 1 / 2 then 50 else - 30)"

definition spec_type_modifier :: "rat \<Rightarrow> int" where
  "spec_type_modifier r = (if r < 2 / 5 then - 60 else 20)"

definition spec_weekday_adjustment :: "string \<Rightarrow> int" where
  "spec_weekday_adjustment d =
     (if d = ''Fri'' \<or> d = ''Sun'' then 80 else if d = ''Tue'' \<or> d = ''Wed'' then - 40 else 0)"

definition spec_last_minute :: "int \<Rightarrow> int" where
  "spec_last_minute d = (if d < 3 then 150 else 0)"

definition spec_quality :: "int \<Rightarrow> string" where
  "spec_quality h =
     (if 10 \<le> h \<and> h \<le> 16 then ''Prime'' else if h < 8 \<or> 20 < h then ''Awkward'' else ''Standard'')"

definition spec_time_adjustment :: "int \<Rightarrow> int" where
  "spec_time_adjustment h =
     (if spec_quality h = ''Prime'' then 30 else if spec_quality h = ''Awkward'' then - 30 else 0)"

text \<open>
  The market's base price after \<open>i\<close> drift-and-floor steps, started at \<open>p\<close> when the
  random source has answered \<open>k\<close> calls: each day takes four draws, the fourth being the
  step in \<open>[-60, 60]\<close>.
\<close>

primrec spec_base_price :: "rng \<Rightarrow> int \<Rightarrow> nat \<Rightarrow> nat \<Rightarrow> int" where
  "spec_base_price g p k 0 = p"
| "spec_base_price g p k (Suc i) = max 200 (spec_base_price g p k i + randint_at g (k + 4 * i + 3) (- 60) 60)"


subsection \<open>Sample inputs\<close>

text \<open>A random source within the library's contract, and offers with a given day and price.\<close>

definition sample_rng :: rng where
  "sample_rng =
     \<lparr>random_at = (\<lambda>k. if even k then 1 / 4 else 3 / 4),
      randint_at = (\<lambda>k a b. if k mod 3 = 0 then a else b)\<rparr>"

definition sample_offer :: "int \<Rightarrow> int \<Rightarrow> FlightOption" where
  "sample_offer d p =
     \<lparr>day_index = d, day_name = ''Mon'', airline = ''CheapJet'', quality_bonus = False,
      is_direct = True, price = p, time_str = ''12:00'', time_quality = ''Prime''\<rparr>"

text \<open>
  A random source whose every \<^verbatim>\<open>random()\<close> answers \<open>j / 100\<close>: the hundred sources
  \<open>grid_rng 0, ..., grid_rng 99\<close> are equally spaced over \<open>[0, 1)\<close>.
\<close>

definition grid_rng :: "nat \<Rightarrow> rng" where
  "grid_rng j = \<lparr>random_at = (\<lambda>k. of_nat j / 100), randint_at = (\<lambda>k a b. a)\<rparr>"

definition sample_market :: "FlightOption list" where
  "sample_market =
     [\<lparr>day_index = 0, day_name = ''Sun'', airline = ''LuxAir'', quality_bonus = True,
       is_direct = True, price = 970, time_str = ''23:00'', time_quality = ''Awkward''\<rparr>,
      \<lparr>day_index = 1, day_name = ''Mon'', airline = ''LuxAir'', quality_bonus = True,
       is_direct = True, price = 950, time_str = ''23:00'', time_quality = ''Awkward''\<rparr>]"

section \<open>Auxiliary facts\<close>

lemma getitem_day:
  "py_getitem DAYS_OF_WEEK (x mod 7) = Inr (DAYS_OF_WEEK ! nat (x mod 7))"
  by (simp add: py_getitem_def DAYS_OF_WEEK_def)


lemma weekday_adjust_eq:
  "(if dname \<in> set [''Fri'', ''Sun''] then p + 80
    else if dname \<in> set [''Tue'', ''Wed''] then p - 40 else p)
   = p + spec_weekday_adjustment dname"
  by (simp add: spec_weekday_adjustment_def)

lemma last_minute_eq: "(if d < 3 then p + 150 else p) = p + spec_last_minute d"
  by (simp add: spec_last_minute_def)

lemma tier_eq:
  "(if r < 0.5 then (''LuxAir'', True, 50) else (''CheapJet'', False, - 30))
   = (if r < 1 / 2 then ''LuxAir'' else ''CheapJet'', r < 1 / 2, spec_tier_modifier r)"
  by (simp add: spec_tier_modifier_def)

lemma type_eq:
  "(if r < 0.40 then (False, m - 60) else (True, m + 20))
   = (\<not> r < 2 / 5, m + spec_type_modifier r)"
  by (simp add: spec_type_modifier_def)

lemma time_eq:
  "(if 10 \<le> h \<and> h \<le> 16 then (''Prime'', p + 30)
    else if h < 8 \<or> h > 20 then (''Awkward'', p - 30)
    else (''Standard'', p))
   = (spec_quality h, p + spec_time_adjustment h)"
  by (simp add: spec_quality_def spec_time_adjustment_def)

lemma FlightOption_init_eq:
  "FlightOption_init g d mp off k =
     Inr (\<lparr>day_index = d,
           day_name = DAYS_OF_WEEK ! nat ((d + off) mod 7),
           airline = (if random_at g k < 1 / 2 then ''LuxAir'' else ''CheapJet''),
           quality_bonus = (random_at g k < 1 / 2),
           is_direct = (\<not> random_at g (Suc k) < 2 / 5),
           price = max 100 (mp + spec_tier_modifier (random_at g k)
                     + spec_type_modifier (random_at g (Suc k))
                     + spec_weekday_adjustment (DAYS_OF_WEEK ! nat ((d + off) mod 7))
                     + spec_last_minute d
                     + spec_time_adjustment (randint_at g (k + 2) 5 23)),
           time_str = format_02d (randint_at g (k + 2) 5 23) @ '':00'',
           time_quality = spec_quality (randint_at g (k + 2) 5 23)\<rparr>, k + 3)"
  unfolding FlightOption_init_def Let_def getitem_day random_random_def random_randint_def
    weekday_adjust_eq last_minute_eq tier_eq type_eq time_eq
  by (simp add: add.assoc del: max.absorb1 max.absorb2 max.absorb3 max.absorb4)

lemma spec_base_price_shift:
  "spec_base_price g p k (Suc i) = spec_base_price g (max 200 (p + randint_at g (k + 3) (- 60) 60)) (k + 4) i"
proof (induction i)
  case 0
  show ?case by simp
next
  case (Suc i)
  have "k + 4 + 4 * i + 3 = k + 4 * Suc i + 3" by simp
  then show ?case using Suc by (simp del: max.absorb1 max.absorb2 max.absorb3 max.absorb4)
qed

lemma generate_loop_spec:
  "\<exists>fs. generate_loop g off days flights mp k = Inr (flights @ fs, k + 4 * length days)
      \<and> length fs = length days
      \<and> (\<forall>i < length days.
            FlightOption_init g (days ! i) (spec_base_price g mp k i) off (k + 4 * i)
              = Inr (fs ! i, k + 4 * i + 3))"
proof (induction days arbitrary: flights mp k)
  case Nil
  show ?case by simp
next
  case (Cons day days)
  obtain f where f: "FlightOption_init g day mp off k = Inr (f, k + 3)"
    using FlightOption_init_eq by blast
  define mp' where "mp' = max 200 (mp + randint_at g (k + 3) (- 60) 60)"
  from Cons.IH [of "flights @ [f]" mp' "k + 4"] obtain fs where
      run: "generate_loop g off days (flights @ [f]) mp' (k + 4)
              = Inr ((flights @ [f]) @ fs, k + 4 + 4 * length days)"
    and len: "length fs = length days"
    and nth: "\<forall>i < length days.
            FlightOption_init g (days ! i) (spec_base_price g mp' (k + 4) i) off (k + 4 + 4 * i)
              = Inr (fs ! i, k + 4 + 4 * i + 3)"
    by blast
  have "generate_loop g off (day # days) flights mp k
          = Inr (flights @ (f # fs), k + 4 * length (day # days))"
    using f run by (simp add: random_randint_def mp'_def ac_simps)
  moreover have "length (f # fs) = length (day # days)"
    using len by simp
  moreover have "\<forall>i < length (day # days).
            FlightOption_init g ((day # days) ! i) (spec_base_price g mp k i) off (k + 4 * i)
              = Inr ((f # fs) ! i, k + 4 * i + 3)"
  proof (intro allI impI)
    fix i assume i: "i < length (day # days)"
    show "FlightOption_init g ((day # days) ! i) (spec_base_price g mp k i) off (k + 4 * i)
              = Inr ((f # fs) ! i, k + 4 * i + 3)"
    proof (cases i)
      case 0
      then show ?thesis using f by simp
    next
      case (Suc j)
      with i have j: "j < length days" by simp
      have idx: "k + 4 * Suc j = k + 4 + 4 * j" by simp
      from nth j have "FlightOption_init g (days ! j) (spec_base_price g mp' (k + 4) j) off (k + 4 + 4 * j)
              = Inr (fs ! j, k + 4 + 4 * j + 3)" by blast
      then show ?thesis
        unfolding Suc spec_base_price_shift idx mp'_def by simp
    qed
  qed
  ultimately show ?case by blast
qed

lemma py_range_length: "length (py_range n) = nat n"
  by (simp add: py_range_def)

lemma py_range_nth: "i < nat n \<Longrightarrow> py_range n ! i = int i"
  by (simp add: py_range_def)

lemma generate_flight_data_spec:
  "\<exists>fs. generate_flight_data g days k = Inr (fs, k + 2 + 4 * nat days)
      \<and> length fs = nat days
      \<and> (\<forall>i < nat days.
            FlightOption_init g (int i) (spec_base_price g (randint_at g k 700 1100) (k + 2) i)
                (randint_at g (Suc k) 0 6) (k + 2 + 4 * i)
              = Inr (fs ! i, k + 2 + 4 * i + 3))"
  using generate_loop_spec [of g "randint_at g (Suc k) 0 6" "py_range days" "[]"
      "randint_at g k 700 1100" "k + 2"]
  by (auto simp add: generate_flight_data_def random_randint_def py_range_length py_range_nth)

lemma sample_rng_valid: "valid_rng sample_rng"
  by (simp add: valid_rng_def sample_rng_def)

lemma sample_market_generated: "generate_flight_data sample_rng 2 0 = Inr (sample_market, 10)"
  unfolding sample_market_def by code_simp

lemma generated_nth:
  assumes "generate_flight_data g days k = Inr (flights, k')"
  shows "k' = k + 2 + 4 * nat days" and "length flights = nat days"
    and "i < length flights \<Longrightarrow>
      FlightOption_init g (int i) (spec_base_price g (randint_at g k 700 1100) (k + 2) i)
          (randint_at g (Suc k) 0 6) (k + 2 + 4 * i)
        = Inr (flights ! i, k + 2 + 4 * i + 3)"
  using generate_flight_data_spec [of g days k] assms by auto

lemma spec_base_price_ge_200: "200 \<le> spec_base_price g p k (Suc i)"
  by simp

lemma init_fields:
  assumes "FlightOption_init g d mp off k = Inr (f, k')"
  shows "day_index f = d"
    and "py_getitem DAYS_OF_WEEK ((d + off) mod 7) = Inr (day_name f)"
    and "price f = max 100 (mp + spec_tier_modifier (random_at g k)
                     + spec_type_modifier (random_at g (Suc k))
                     + spec_weekday_adjustment (day_name f)
                     + spec_last_minute d
                     + spec_time_adjustment (randint_at g (k + 2) 5 23))"
    and "is_direct f \<longleftrightarrow> \<not> random_at g (Suc k) < 2 / 5"
  using assms unfolding FlightOption_init_eq getitem_day by auto

lemma generated_offer:
  assumes "generate_flight_data g days k = Inr (flights, k')" and "f \<in> set flights"
  obtains i where "i < length flights" and "f = flights ! i"
    and "FlightOption_init g (int i) (spec_base_price g (randint_at g k 700 1100) (k + 2) i)
          (randint_at g (Suc k) 0 6) (k + 2 + 4 * i) = Inr (f, k + 2 + 4 * i + 3)"
proof -
  from assms(2) obtain i where i: "i < length flights" and f: "flights ! i = f"
    by (auto simp: in_set_conv_nth)
  from generated_nth(3) [OF assms(1) i] f i that show thesis by auto
qed

lemma grid_direct:
  "(case FlightOption_init (grid_rng j) d mp off k of Inl e \<Rightarrow> False | Inr (f, k') \<Rightarrow> is_direct f)
     \<longleftrightarrow> 40 \<le> j"
proof -
  have "(of_nat j / 100 :: rat) < 2 / 5 \<longleftrightarrow> (of_nat j :: rat) < of_nat 40"
    by simp
  also have "\<dots> \<longleftrightarrow> j < 40"
    by (rule of_nat_less_iff)
  finally show ?thesis
    unfolding FlightOption_init_eq by (simp add: grid_rng_def not_less)
qed

lemma grid_layover:
  "(case FlightOption_init (grid_rng j) d mp off k of Inl e \<Rightarrow> False | Inr (f, k') \<Rightarrow> \<not> is_direct f)
     \<longleftrightarrow> j < 40"
proof -
  have "(of_nat j / 100 :: rat) < 2 / 5 \<longleftrightarrow> (of_nat j :: rat) < of_nat 40"
    by simp
  also have "\<dots> \<longleftrightarrow> j < 40"
    by (rule of_nat_less_iff)
  finally show ?thesis
    unfolding FlightOption_init_eq by (simp add: grid_rng_def)
qed

lemma find_loop_first_min:
  "\<exists>i < Suc (length xs).
      find_loop xs (Some b) (Finite (calculate_score b)) = Some ((b # xs) ! i)
    \<and> (\<forall>j < Suc (length xs). calculate_score ((b # xs) ! i) \<le> calculate_score ((b # xs) ! j))
    \<and> (\<forall>j < i. calculate_score ((b # xs) ! i) < calculate_score ((b # xs) ! j))"
proof (induction xs arbitrary: b)
  case Nil
  show ?case by simp
next
  case (Cons x xs)
  show ?case
  proof (cases "calculate_score x < calculate_score b")
    case True
    from Cons.IH [of x] obtain i where i: "i < Suc (length xs)"
      and r: "find_loop xs (Some x) (Finite (calculate_score x)) = Some ((x # xs) ! i)"
      and le: "\<forall>j < Suc (length xs). calculate_score ((x # xs) ! i) \<le> calculate_score ((x # xs) ! j)"
      and lt: "\<forall>j < i. calculate_score ((x # xs) ! i) < calculate_score ((x # xs) ! j)"
      by blast
    from le have lex: "calculate_score ((x # xs) ! i) \<le> calculate_score x" by fastforce
    have "Suc i < Suc (length (x # xs))" using i by simp
    moreover have "find_loop (x # xs) (Some b) (Finite (calculate_score b)) = Some ((b # x # xs) ! Suc i)"
      using True r by simp
    moreover have "\<forall>j < Suc (length (x # xs)). calculate_score ((b # x # xs) ! Suc i) \<le> calculate_score ((b # x # xs) ! j)"
      using le lex True by (auto simp: nth_Cons split: nat.splits)
    moreover have "\<forall>j < Suc i. calculate_score ((b # x # xs) ! Suc i) < calculate_score ((b # x # xs) ! j)"
      using lt lex True by (auto simp: nth_Cons less_Suc_eq_0_disj split: nat.splits)
    ultimately show ?thesis by blast
  next
    case False
    from Cons.IH [of b] obtain i where i: "i < Suc (length xs)"
      and r: "find_loop xs (Some b) (Finite (calculate_score b)) = Some ((b # xs) ! i)"
      and le: "\<forall>j < Suc (length xs). calculate_score ((b # xs) ! i) \<le> calculate_score ((b # xs) ! j)"
      and lt: "\<forall>j < i. calculate_score ((b # xs) ! i) < calculate_score ((b # xs) ! j)"
      by blast
    from le have leb: "calculate_score ((b # xs) ! i) \<le> calculate_score b" by fastforce
    define i' where "i' = (if i = 0 then 0 else Suc i)"
    have eq: "(b # x # xs) ! i' = (b # xs) ! i"
      by (cases i) (simp_all add: i'_def)
    have "i' < Suc (length (x # xs))" using i by (simp add: i'_def)
    moreover have "find_loop (x # xs) (Some b) (Finite (calculate_score b)) = Some ((b # x # xs) ! i')"
      using False r eq by simp
    moreover have "\<forall>j < Suc (length (x # xs)). calculate_score ((b # x # xs) ! i') \<le> calculate_score ((b # x # xs) ! j)"
    proof (intro allI impI)
      fix j assume j: "j < Suc (length (x # xs))"
      show "calculate_score ((b # x # xs) ! i') \<le> calculate_score ((b # x # xs) ! j)"
      proof (cases j)
        case 0
        then show ?thesis using leb eq by simp
      next
        case (Suc m)
        show ?thesis
        proof (cases m)
          case 0
          then show ?thesis using Suc leb False eq by simp
        next
          case (Suc n)
          with \<open>j = Suc m\<close> j have "Suc n < Suc (length xs)" by simp
          with le have "calculate_score ((b # xs) ! i) \<le> calculate_score ((b # xs) ! Suc n)" by blast
          then show ?thesis using Suc \<open>j = Suc m\<close> eq by simp
        qed
      qed
    qed
    moreover have "\<forall>j < i'. calculate_score ((b # x # xs) ! i') < calculate_score ((b # x # xs) ! j)"
    proof (intro allI impI)
      fix j assume j: "j < i'"
      then have pos: "0 < i" and i'S: "i' = Suc i" by (auto simp: i'_def split: if_splits)
      from lt pos have ltb: "calculate_score ((b # xs) ! i) < calculate_score b" by fastforce
      show "calculate_score ((b # x # xs) ! i') < calculate_score ((b # x # xs) ! j)"
      proof (cases j)
        case 0
        then show ?thesis using ltb eq by simp
      next
        case (Suc m)
        show ?thesis
        proof (cases m)
          case 0
          then show ?thesis using Suc ltb False eq by simp
        next
          case (Suc n)
          with \<open>j = Suc m\<close> j i'S have "Suc n < i" by simp
          with lt have "calculate_score ((b # xs) ! i) < calculate_score ((b # xs) ! Suc n)" by blast
          then show ?thesis using Suc \<open>j = Suc m\<close> eq by simp
        qed
      qed
    qed
    ultimately show ?thesis by blast
  qed
qed

lemma sample_offer_score: "calculate_score (sample_offer d p) = p + d * 5"
  by (simp add: sample_offer_def calculate_score_def Let_def DAILY_PATIENCE_COST_def)

section \<open>The pain score\<close>

text \<open>
  C1. The score of an offer is its price, plus 5 per day of waiting, plus 60 when the
  flight is not direct, plus 40 when the time quality is Awkward, minus 50 when the
  quality bonus (the premium tier) is set. The day name, the airline name and the time
  string do not enter it. The offer with price 500, day 10, a layover, an Awkward time
  and the premium tier scores \<open>500 + 50 + 60 + 40 - 50 = 600\<close>; the direct budget offer
  with price 700 on day 0 at a Prime time scores 700.
\<close>

theorem calculate_score_formula:
  "calculate_score f =
     price f + day_index f * 5 + (if is_direct f then 0 else 60)
       + (if time_quality f = ''Awkward'' then 40 else 0)
       - (if quality_bonus f then 50 else 0)
   \<and> calculate_score (f\<lparr>day_name := dn, airline := al, time_str := ts\<rparr>) = calculate_score f
   \<and> calculate_score \<lparr>day_index = 10, day_name = dn, airline = al, quality_bonus = True,
        is_direct = False, price = 500, time_str = ts, time_quality = ''Awkward''\<rparr> = 600
   \<and> calculate_score \<lparr>day_index = 0, day_name = dn, airline = al, quality_bonus = False,
        is_direct = True, price = 700, time_str = ts, time_quality = ''Prime''\<rparr> = 700"
  by (simp add: calculate_score_def Let_def VALUE_OF_DIRECT_FLIGHT_def VALUE_OF_GOOD_TIME_def
      VALUE_OF_PREMIUM_AIRLINE_def DAILY_PATIENCE_COST_def)

text \<open>
  C1, the first scenario as the specification words it: the score of that offer is not
  650, whatever its day name, airline name and time string.
\<close>

theorem calculate_score_scenario_not_650:
  "calculate_score \<lparr>day_index = 10, day_name = ''Thu'', airline = ''LuxAir'',
      quality_bonus = True, is_direct = False, price = 500, time_str = ''05:00'',
      time_quality = ''Awkward''\<rparr> \<noteq> 650"
  by (simp add: calculate_score_def Let_def VALUE_OF_DIRECT_FLIGHT_def VALUE_OF_GOOD_TIME_def
      VALUE_OF_PREMIUM_AIRLINE_def DAILY_PATIENCE_COST_def)

section \<open>Selection\<close>

text \<open>
  C2. On a non-empty sequence the selector returns an offer of the sequence, at some
  index \<open>i\<close>, whose score is at most the score of every offer of the sequence and
  strictly below the score of every offer before index \<open>i\<close>: the first offer that
  attains the minimum.
\<close>

theorem find_best_flight_minimum:
  assumes "flights \<noteq> []"
  shows "\<exists>i < length flights.
      find_best_flight flights = Some (flights ! i)
    \<and> (\<forall>o' \<in> set flights. calculate_score (flights ! i) \<le> calculate_score o')
    \<and> (\<forall>j < i. calculate_score (flights ! i) < calculate_score (flights ! j))"
proof -
  from assms obtain b xs where fl: "flights = b # xs" by (cases flights) auto
  from find_loop_first_min [of xs b] obtain i where i: "i < Suc (length xs)"
      and r: "find_loop xs (Some b) (Finite (calculate_score b)) = Some ((b # xs) ! i)"
      and le: "\<forall>j < Suc (length xs). calculate_score ((b # xs) ! i) \<le> calculate_score ((b # xs) ! j)"
      and lt: "\<forall>j < i. calculate_score ((b # xs) ! i) < calculate_score ((b # xs) ! j)"
    by blast
  have "find_best_flight flights = Some (flights ! i)"
    using r fl by (simp add: find_best_flight_def)
  moreover have "\<forall>o' \<in> set flights. calculate_score (flights ! i) \<le> calculate_score o'"
  proof
    fix o' assume "o' \<in> set flights"
    then obtain j where "j < length flights" "flights ! j = o'" by (auto simp: in_set_conv_nth)
    with le fl show "calculate_score (flights ! i) \<le> calculate_score o'" by auto
  qed
  ultimately show ?thesis using i lt fl by auto
qed

text \<open>
  Three offers with scores 925, 700 and 700: the selector returns the one at index 1,
  the first of the two that tie for the minimum.
\<close>

theorem find_best_flight_minimum_witness:
  "[sample_offer 5 900, sample_offer 0 700, sample_offer 2 690] \<noteq> []
   \<and> map calculate_score [sample_offer 5 900, sample_offer 0 700, sample_offer 2 690]
       = [925, 700, 700]
   \<and> find_best_flight [sample_offer 5 900, sample_offer 0 700, sample_offer 2 690]
       = Some (sample_offer 0 700)
   \<and> (\<exists>i < length [sample_offer 5 900, sample_offer 0 700, sample_offer 2 690].
        find_best_flight [sample_offer 5 900, sample_offer 0 700, sample_offer 2 690]
          = Some ([sample_offer 5 900, sample_offer 0 700, sample_offer 2 690] ! i)
        \<and> (\<forall>o' \<in> set [sample_offer 5 900, sample_offer 0 700, sample_offer 2 690].
              calculate_score ([sample_offer 5 900, sample_offer 0 700, sample_offer 2 690] ! i)
                \<le> calculate_score o')
        \<and> (\<forall>j < i. calculate_score ([sample_offer 5 900, sample_offer 0 700, sample_offer 2 690] ! i)
              < calculate_score ([sample_offer 5 900, sample_offer 0 700, sample_offer 2 690] ! j)))"
proof -
  let ?l = "[sample_offer 5 900, sample_offer 0 700, sample_offer 2 690]"
  have ne: "?l \<noteq> []" by simp
  have m: "map calculate_score ?l = [925, 700, 700]"
    by (simp add: sample_offer_score)
  have b: "find_best_flight ?l = Some (sample_offer 0 700)"
    by (simp add: find_best_flight_def sample_offer_score)
  from ne m b find_best_flight_minimum [OF ne] show ?thesis by blast
qed

text \<open>
  C3. On the empty sequence the selector returns \<open>None\<close>: the loop body never runs, no
  offer is built, and nothing is raised.
\<close>

theorem find_best_flight_empty:
  "find_best_flight [] = None"
  by (simp add: find_best_flight_def)

section \<open>Generation\<close>

text \<open>
  C4. The base market price is advanced after it has priced the current day's offer and
  before the next day's offer is priced. The offer of day \<open>i\<close> is the one the
  constructor builds from the base price after \<open>i\<close> drift-and-floor steps; that price
  starts at the answer of \<^verbatim>\<open>randint(700, 1100)\<close>, which lies in \<open>[700, 1100]\<close>, and each
  step adds the answer of \<^verbatim>\<open>randint(-60, 60)\<close>, which lies in \<open>[-60, 60]\<close>, the draw that
  follows the offer's own three draws, and floors the sum at 200.
\<close>

theorem market_price_random_walk:
  assumes "valid_rng g"
    and "generate_flight_data g days k = Inr (flights, k')"
    and "i < length flights"
  shows "FlightOption_init g (int i) (spec_base_price g (randint_at g k 700 1100) (k + 2) i)
            (randint_at g (Suc k) 0 6) (k + 2 + 4 * i)
          = Inr (flights ! i, k + 2 + 4 * i + 3)
    \<and> spec_base_price g (randint_at g k 700 1100) (k + 2) 0 = randint_at g k 700 1100
    \<and> 700 \<le> randint_at g k 700 1100 \<and> randint_at g k 700 1100 \<le> 1100
    \<and> spec_base_price g (randint_at g k 700 1100) (k + 2) (Suc i)
        = max 200 (spec_base_price g (randint_at g k 700 1100) (k + 2) i
                    + randint_at g (k + 2 + 4 * i + 3) (- 60) 60)
    \<and> - 60 \<le> randint_at g (k + 2 + 4 * i + 3) (- 60) 60
    \<and> randint_at g (k + 2 + 4 * i + 3) (- 60) 60 \<le> 60"
proof -
  have a: "700 \<le> randint_at g k 700 1100 \<and> randint_at g k 700 1100 \<le> 1100"
    using assms(1) by (simp add: valid_rng_def)
  have b: "- 60 \<le> randint_at g (k + 2 + 4 * i + 3) (- 60) 60
      \<and> randint_at g (k + 2 + 4 * i + 3) (- 60) 60 \<le> 60"
    using assms(1) by (simp add: valid_rng_def)
  show ?thesis
    using generated_nth(3) [OF assms(2) assms(3)] a b by simp
qed

text \<open>
  In the sample market the first step is \<open>+60\<close>: day 1 is priced from 760, not from the
  initial 700.
\<close>

theorem market_price_random_walk_witness:
  "valid_rng sample_rng
   \<and> generate_flight_data sample_rng 2 0 = Inr (sample_market, 10)
   \<and> 1 < length sample_market
   \<and> FlightOption_init sample_rng 1 760 6 6 = Inr (sample_market ! 1, 9)
   \<and> spec_base_price sample_rng 700 2 1 = 760
   \<and> randint_at sample_rng 5 (- 60) 60 = 60"
proof -
  have l: "1 < length sample_market" by (simp add: sample_market_def)
  have d: "spec_base_price sample_rng 700 2 1 = 760" and r: "randint_at sample_rng 0 700 1100 = 700"
    and o6: "randint_at sample_rng (Suc 0) 0 6 = 6" and s: "randint_at sample_rng 5 (- 60) 60 = 60"
    by (simp_all add: sample_rng_def)
  show ?thesis
    using market_price_random_walk [OF sample_rng_valid sample_market_generated l]
      sample_rng_valid sample_market_generated l d r o6 s
    by simp
qed

text \<open>
  C5. The flight type is a layover when the second draw of an offer is below 0.40 and
  direct otherwise. Over a hundred equally spaced draws \<open>0.00, 0.01, ..., 0.99\<close> the
  constructor builds 60 direct offers and 40 layovers: the direct flight is the more
  likely outcome, against the constructor's own comment that direct flights are rarer.
\<close>

theorem flight_type_direct_majority:
  "length (filter (\<lambda>j. case FlightOption_init (grid_rng j) 5 700 0 0 of
                          Inl e \<Rightarrow> False | Inr (f, k) \<Rightarrow> is_direct f) [0..<100]) = 60
   \<and> length (filter (\<lambda>j. case FlightOption_init (grid_rng j) 5 700 0 0 of
                          Inl e \<Rightarrow> False | Inr (f, k) \<Rightarrow> \<not> is_direct f) [0..<100]) = 40"
  unfolding grid_direct grid_layover by code_simp

text \<open>
  C6. For a positive day count the generator returns, without raising, exactly that
  many offers, and their day indices are \<open>0, 1, ..., days - 1\<close> in this order.
\<close>

theorem generate_flight_data_length:
  assumes "0 < days"
  shows "\<exists>flights. generate_flight_data g days k = Inr (flights, k + 2 + 4 * nat days)
      \<and> int (length flights) = days
      \<and> map day_index flights = [0..days - 1]"
proof -
  from generate_flight_data_spec [of g days k] obtain fs where
      run: "generate_flight_data g days k = Inr (fs, k + 2 + 4 * nat days)"
    and len: "length fs = nat days"
    and nth: "\<forall>i < nat days.
            FlightOption_init g (int i) (spec_base_price g (randint_at g k 700 1100) (k + 2) i)
                (randint_at g (Suc k) 0 6) (k + 2 + 4 * i)
              = Inr (fs ! i, k + 2 + 4 * i + 3)"
    by blast
  have "map day_index fs = [0..days - 1]"
  proof (rule nth_equalityI)
    show "length (map day_index fs) = length [0..days - 1]" using len by simp
  next
    fix i assume "i < length (map day_index fs)"
    then have i: "i < nat days" using len by simp
    with nth have "FlightOption_init g (int i) (spec_base_price g (randint_at g k 700 1100) (k + 2) i)
                (randint_at g (Suc k) 0 6) (k + 2 + 4 * i)
              = Inr (fs ! i, k + 2 + 4 * i + 3)" by blast
    then have "day_index (fs ! i) = int i" by (rule init_fields(1))
    then show "map day_index fs ! i = [0..days - 1] ! i" using i len by simp
  qed
  then show ?thesis using run len assms by auto
qed

theorem generate_flight_data_length_witness:
  "(0::int) < 2
   \<and> generate_flight_data sample_rng 2 0 = Inr (sample_market, 10)
   \<and> length sample_market = 2 \<and> map day_index sample_market = [0, 1]"
proof -
  have u: "[0..(1::int)] = [0, 1]" by code_simp
  show ?thesis
    using generate_flight_data_length [of 2 sample_rng 0] sample_market_generated
    by (simp add: u)
qed

text \<open>
  C7. Every generated offer has a price of at least 100, and the price is the floor at
  100 of the sum of the day's base price and all five modifiers: tier, flight type,
  weekend or mid-week, last minute, time of day.
\<close>

theorem generated_price_floor:
  assumes "generate_flight_data g days k = Inr (flights, k')"
  shows "(\<forall>f \<in> set flights. 100 \<le> price f)
    \<and> (\<forall>i < length flights.
          price (flights ! i) =
            max 100 (spec_base_price g (randint_at g k 700 1100) (k + 2) i
              + spec_tier_modifier (random_at g (k + 2 + 4 * i))
              + spec_type_modifier (random_at g (k + 2 + 4 * i + 1))
              + spec_weekday_adjustment (day_name (flights ! i))
              + spec_last_minute (int i)
              + spec_time_adjustment (randint_at g (k + 2 + 4 * i + 2) 5 23)))"
proof -
  have formula: "price (flights ! i) =
            max 100 (spec_base_price g (randint_at g k 700 1100) (k + 2) i
              + spec_tier_modifier (random_at g (k + 2 + 4 * i))
              + spec_type_modifier (random_at g (k + 2 + 4 * i + 1))
              + spec_weekday_adjustment (day_name (flights ! i))
              + spec_last_minute (int i)
              + spec_time_adjustment (randint_at g (k + 2 + 4 * i + 2) 5 23))"
    if "i < length flights" for i
    using init_fields(3) [OF generated_nth(3) [OF assms that]] by simp
  have "100 \<le> price f" if "f \<in> set flights" for f
  proof -
    from that obtain i where "i < length flights" and "f = flights ! i"
      by (auto simp: in_set_conv_nth)
    with formula [of i] show ?thesis by simp
  qed
  with formula show ?thesis by blast
qed

theorem generated_price_floor_witness:
  "generate_flight_data sample_rng 2 0 = Inr (sample_market, 10)
   \<and> 100 \<le> price (sample_market ! 0) \<and> 100 \<le> price (sample_market ! 1)
   \<and> price (sample_market ! 1) = max 100 (760 + 50 + 20 + 0 + 150 + (- 30))"
proof -
  have d: "spec_base_price sample_rng 700 2 (Suc 0) = 760" and r: "randint_at sample_rng 0 700 1100 = 700"
    and t: "spec_tier_modifier (random_at sample_rng 6) = 50"
    and y: "spec_type_modifier (random_at sample_rng 7) = 20"
    and h: "spec_time_adjustment (randint_at sample_rng 8 5 23) = - 30"
    and l: "spec_last_minute 1 = 150"
    by (simp_all add: sample_rng_def spec_tier_modifier_def spec_type_modifier_def
        spec_time_adjustment_def spec_quality_def spec_last_minute_def)
  have w: "spec_weekday_adjustment (day_name (sample_market ! 1)) = 0"
    by (simp add: sample_market_def spec_weekday_adjustment_def)
  have len: "length sample_market = 2" by (simp add: sample_market_def)
  from generated_price_floor [OF sample_market_generated]
  have "100 \<le> price (sample_market ! 0) \<and> 100 \<le> price (sample_market ! 1)"
    and "price (sample_market ! 1) =
            max 100 (spec_base_price sample_rng (randint_at sample_rng 0 700 1100) (0 + 2) 1
              + spec_tier_modifier (random_at sample_rng (0 + 2 + 4 * 1))
              + spec_type_modifier (random_at sample_rng (0 + 2 + 4 * 1 + 1))
              + spec_weekday_adjustment (day_name (sample_market ! 1))
              + spec_last_minute (int 1)
              + spec_time_adjustment (randint_at sample_rng (0 + 2 + 4 * 1 + 2) 5 23))"
    using len by auto
  then show ?thesis
    using sample_market_generated d r t y h l w by simp
qed

text \<open>
  C8. The start offset of a market is one answer of \<^verbatim>\<open>randint(0, 6)\<close>, the second draw
  of the generation, and lies in \<open>[0, 6]\<close>; the day name of every offer of the market is
  \<^verbatim>\<open>DAYS_OF_WEEK[(day_index + start_offset) % 7]\<close> for that one offset.
\<close>

theorem generated_day_names:
  assumes "valid_rng g"
    and "generate_flight_data g days k = Inr (flights, k')"
  shows "0 \<le> randint_at g (Suc k) 0 6 \<and> randint_at g (Suc k) 0 6 \<le> 6
    \<and> (\<forall>f \<in> set flights.
          py_getitem DAYS_OF_WEEK ((day_index f + randint_at g (Suc k) 0 6) mod 7)
            = Inr (day_name f))"
proof -
  have "0 \<le> randint_at g (Suc k) 0 6 \<and> randint_at g (Suc k) 0 6 \<le> 6"
    using assms(1) by (simp add: valid_rng_def)
  moreover have "py_getitem DAYS_OF_WEEK ((day_index f + randint_at g (Suc k) 0 6) mod 7)
            = Inr (day_name f)" if "f \<in> set flights" for f
  proof -
    from generated_offer [OF assms(2) that] obtain i where
      "FlightOption_init g (int i) (spec_base_price g (randint_at g k 700 1100) (k + 2) i)
          (randint_at g (Suc k) 0 6) (k + 2 + 4 * i) = Inr (f, k + 2 + 4 * i + 3)"
      by blast
    from init_fields(1) [OF this] init_fields(2) [OF this] show ?thesis by simp
  qed
  ultimately show ?thesis by blast
qed

theorem generated_day_names_witness:
  "valid_rng sample_rng
   \<and> generate_flight_data sample_rng 2 0 = Inr (sample_market, 10)
   \<and> randint_at sample_rng 1 0 6 = 6
   \<and> py_getitem DAYS_OF_WEEK ((day_index (sample_market ! 0) + 6) mod 7) = Inr ''Sun''
   \<and> day_name (sample_market ! 0) = ''Sun''
   \<and> py_getitem DAYS_OF_WEEK ((day_index (sample_market ! 1) + 6) mod 7) = Inr ''Mon''
   \<and> day_name (sample_market ! 1) = ''Mon''"
proof -
  have o6: "randint_at sample_rng (Suc 0) 0 6 = 6" by (simp add: sample_rng_def)
  have m: "sample_market ! 0 \<in> set sample_market" "sample_market ! 1 \<in> set sample_market"
    and n: "day_name (sample_market ! 0) = ''Sun''" "day_name (sample_market ! 1) = ''Mon''"
    by (simp_all add: sample_market_def)
  show ?thesis
    using generated_day_names [OF sample_rng_valid sample_market_generated]
      sample_rng_valid sample_market_generated o6 m n
    by simp
qed

text \<open>
  C9. For a day count of zero or below the generator raises nothing and returns the
  empty list, after its two initial draws.
\<close>

theorem generate_flight_data_nonpositive:
  assumes "days \<le> 0"
  shows "generate_flight_data g days k = Inr ([], k + 2)"
  using assms by (simp add: generate_flight_data_def py_range_def random_randint_def)

theorem generate_flight_data_nonpositive_witness:
  "(- 4::int) \<le> 0 \<and> generate_flight_data sample_rng (- 4) 0 = Inr ([], 2)
   \<and> (0::int) \<le> 0 \<and> generate_flight_data sample_rng 0 0 = Inr ([], 2)"
  using generate_flight_data_nonpositive [of "- 4" sample_rng 0]
    generate_flight_data_nonpositive [of 0 sample_rng 0]
  by simp

text \<open>
  C10. Every generated offer has a score of at least 50, so never a negative one: its
  price is at least 100, its day index is not negative, and the score is at least the
  price minus 50.
\<close>

theorem generated_score_lower_bound:
  assumes "generate_flight_data g days k = Inr (flights, k')"
  shows "\<forall>f \<in> set flights. 50 \<le> calculate_score f \<and> 0 \<le> calculate_score f
      \<and> price f - 50 \<le> calculate_score f \<and> 100 \<le> price f \<and> 0 \<le> day_index f"
proof
  fix f assume "f \<in> set flights"
  from generated_offer [OF assms this] obtain i where
    init: "FlightOption_init g (int i) (spec_base_price g (randint_at g k 700 1100) (k + 2) i)
          (randint_at g (Suc k) 0 6) (k + 2 + 4 * i) = Inr (f, k + 2 + 4 * i + 3)"
    by blast
  have d: "0 \<le> day_index f" using init_fields(1) [OF init] by simp
  have p: "100 \<le> price f" using init_fields(3) [OF init] by simp
  have s: "price f - 50 \<le> calculate_score f"
    using d by (simp add: calculate_score_def Let_def VALUE_OF_DIRECT_FLIGHT_def
        VALUE_OF_GOOD_TIME_def VALUE_OF_PREMIUM_AIRLINE_def DAILY_PATIENCE_COST_def)
  from d p s show "50 \<le> calculate_score f \<and> 0 \<le> calculate_score f
      \<and> price f - 50 \<le> calculate_score f \<and> 100 \<le> price f \<and> 0 \<le> day_index f"
    by simp
qed

theorem generated_score_lower_bound_witness:
  "generate_flight_data sample_rng 2 0 = Inr (sample_market, 10)
   \<and> map calculate_score sample_market = [960, 945]
   \<and> 50 \<le> calculate_score (sample_market ! 0) \<and> 50 \<le> calculate_score (sample_market ! 1)"
proof -
  have m: "map calculate_score sample_market = [960, 945]"
    by (simp add: sample_market_def calculate_score_def Let_def VALUE_OF_DIRECT_FLIGHT_def
        VALUE_OF_GOOD_TIME_def VALUE_OF_PREMIUM_AIRLINE_def DAILY_PATIENCE_COST_def)
  have e: "sample_market ! 0 \<in> set sample_market" "sample_market ! 1 \<in> set sample_market"
    by (simp_all add: sample_market_def)
  show ?thesis
    using generated_score_lower_bound [OF sample_market_generated] sample_market_generated m e
    by simp
qed

end
